theory Spec2Isabelle
  imports Main
begin

section \<open>JavaScript values used by the services\<close>

text \<open>
  Strings are modelled as \<^typ>\<open>string\<close>. The Notion service only concatenates
  strings, compares them with literals and tests them for emptiness, so the encoding
  of a character does not matter there; the markdown service looks at single code
  units (see below). An optional field of a JSON object is an \<^typ>\<open>'a option\<close>.
  A string is truthy when it is not empty; an array is truthy whenever it is present.
\<close>

definition truthy :: "string option \<Rightarrow> bool" where
  "truthy v = (case v of None \<Rightarrow> False | Some s \<Rightarrow> s \<noteq> [])"

section \<open>Rich text (notion.ts, richTextToMarkdown)\<close>

record annotations =
  bold :: bool
  italic :: bool
  strikethrough :: bool
  code :: bool

record rich_text_item =
  plain_text :: "string option"
  annotations :: "annotations option"
  href :: "string option"

text \<open>\<open>text.annotations?.f\<close>: false when the annotations object is absent.\<close>

definition flag :: "(annotations \<Rightarrow> bool) \<Rightarrow> rich_text_item \<Rightarrow> bool" where
  "flag f text = (case annotations text of None \<Rightarrow> False | Some a \<Rightarrow> f a)"

text \<open>The callback of \<open>richText.map\<close>: the content is rewritten step by step.\<close>

definition richTextItem :: "rich_text_item \<Rightarrow> string" where
  "richTextItem text =
     (let content0 = (case plain_text text of None \<Rightarrow> [] | Some s \<Rightarrow> s);
          content1 = (if flag bold text then ''**'' @ content0 @ ''**'' else content0);
          content2 = (if flag italic text then ''*'' @ content1 @ ''*'' else content1);
          content3 = (if flag strikethrough text then ''~~'' @ content2 @ ''~~'' else content2);
          content4 = (if flag code text then ''`'' @ content3 @ ''`'' else content3);
          content5 = (if truthy (href text)
                      then ''['' @ content4 @ '']('' @ the (href text) @ '')'' else content4)
      in content5)"

definition richTextToMarkdown :: "rich_text_item list option \<Rightarrow> string" where
  "richTextToMarkdown richText =
     (case richText of None \<Rightarrow> [] | Some items \<Rightarrow> concat (map richTextItem items))"

section \<open>Blocks (notion.ts)\<close>

text \<open>
  A block as the remote API returns it: \<open>block[type]\<close> is the payload stored under the
  block's own type name, so the payloads are a map from key to payload. Nested optional
  paths (\<open>data.icon?.emoji\<close>, \<open>data.external?.url\<close>, \<open>data.file?.url\<close>) are one
  optional field each. \<open>children\<close> is absent until \<open>fetchAllBlocks\<close> sets it.
\<close>

record payload =
  rich_text :: "rich_text_item list option"
  checked :: bool
  language :: "string option"
  icon_emoji :: "string option"
  data_type :: "string option"
  external_url :: "string option"
  file_url :: "string option"
  caption :: "rich_text_item list option"
  url :: "string option"
  cells :: "rich_text_item list list option"

datatype block =
  Block (block_id: string) (type: string) (has_children: bool)
        (props: "string \<Rightarrow> payload option") (children: "block list option")

text \<open>\<open>data?.f\<close> for an optional field \<open>f\<close>.\<close>

definition opt :: "payload option \<Rightarrow> (payload \<Rightarrow> 'a option) \<Rightarrow> 'a option" where
  "opt data f = (case data of None \<Rightarrow> None | Some d \<Rightarrow> f d)"

text \<open>\<open>Array.prototype.join\<close>.\<close>

fun join :: "string \<Rightarrow> string list \<Rightarrow> string" where
  "join sep [] = []"
| "join sep [x] = x"
| "join sep (x # y # ys) = x @ sep @ join sep (y # ys)"

text \<open>\<open>'  '.repeat(depth)\<close>.\<close>

definition indent_of :: "nat \<Rightarrow> string" where
  "indent_of depth = concat (replicate depth ''  '')"

text \<open>The default callout icon, U+1F4A1, as its UTF-8 bytes.\<close>

definition light_bulb :: string where
  "light_bulb = [CHR 0xF0, CHR 0x9F, CHR 0x92, CHR 0xA1]"

subsection \<open>tableToMarkdown\<close>

text \<open>The body of the \<open>for\<close> loop at index \<open>i\<close>, then the rest of the loop.\<close>

fun tableLines :: "nat \<Rightarrow> block list \<Rightarrow> string list" where
  "tableLines i [] = []"
| "tableLines i (row # rows) =
     (let cells = (case opt (props row ''table_row'') cells of None \<Rightarrow> [] | Some cs \<Rightarrow> cs);
          cellTexts = map (\<lambda>cell. richTextToMarkdown (Some cell)) cells
      in (''| '' @ join '' | '' cellTexts @ '' |'')
         # (if i = 0 then [''| '' @ join '' | '' (map (\<lambda>_. ''---'') cells) @ '' |''] else [])
         @ tableLines (i + 1) rows)"

definition tableToMarkdown :: "block list \<Rightarrow> string" where
  "tableToMarkdown rows =
     (if length rows = 0 then [] else join ''\<newline>'' (tableLines 0 rows))"

subsection \<open>blockToMarkdown and blocksToMarkdown\<close>

text \<open>
  \<open>blockLines\<close> is the \<open>for\<close> loop of \<open>blocksToMarkdown\<close>, which pushes every
  non-empty fragment onto \<open>lines\<close>.
\<close>

fun blockToMarkdown :: "block \<Rightarrow> nat \<Rightarrow> string"
  and blocksToMarkdown :: "block list \<Rightarrow> nat \<Rightarrow> string"
  and blockLines :: "block list \<Rightarrow> nat \<Rightarrow> string list"
where
  "blockToMarkdown (Block bid ty hc ps ch) depth =
     (let data = ps ty in
      if ty = ''paragraph'' then richTextToMarkdown (opt data rich_text)
      else if ty = ''heading_1'' then ''# '' @ richTextToMarkdown (opt data rich_text)
      else if ty = ''heading_2'' then ''## '' @ richTextToMarkdown (opt data rich_text)
      else if ty = ''heading_3'' then ''### '' @ richTextToMarkdown (opt data rich_text)
      else if ty = ''bulleted_list_item'' then
        (let indent = indent_of depth;
             content = richTextToMarkdown (opt data rich_text);
             children = (case ch of None \<Rightarrow> [] | Some cs \<Rightarrow> blocksToMarkdown cs (depth + 1))
         in indent @ ''- '' @ content @ (if children \<noteq> [] then ''\<newline>'' @ children else []))
      else if ty = ''numbered_list_item'' then
        (let indent = indent_of depth;
             content = richTextToMarkdown (opt data rich_text);
             children = (case ch of None \<Rightarrow> [] | Some cs \<Rightarrow> blocksToMarkdown cs (depth + 1))
         in indent @ ''1. '' @ content @ (if children \<noteq> [] then ''\<newline>'' @ children else []))
      else if ty = ''to_do'' then
        (let checked = (if (case data of None \<Rightarrow> False | Some d \<Rightarrow> checked d) then ''x'' else '' '')
         in ''- ['' @ checked @ ''] '' @ richTextToMarkdown (opt data rich_text))
      else if ty = ''toggle'' then
        (let summary = richTextToMarkdown (opt data rich_text);
             children = (case ch of None \<Rightarrow> [] | Some cs \<Rightarrow> blocksToMarkdown cs depth)
         in ''<details>\<newline><summary>'' @ summary @ ''</summary>\<newline>\<newline>'' @ children
            @ ''\<newline></details>'')
      else if ty = ''code'' then
        (let language = (if truthy (opt data language) then the (opt data language) else []);
             code = richTextToMarkdown (opt data rich_text)
         in ''```'' @ language @ ''\<newline>'' @ code @ ''\<newline>```'')
      else if ty = ''quote'' then ''> '' @ richTextToMarkdown (opt data rich_text)
      else if ty = ''callout'' then
        (let icon = (if truthy (opt data icon_emoji) then the (opt data icon_emoji) else light_bulb);
             content = richTextToMarkdown (opt data rich_text)
         in ''> '' @ icon @ '' '' @ content)
      else if ty = ''divider'' then ''---''
      else if ty = ''image'' then
        (let url = (if opt data data_type = Some ''external'' then opt data external_url
                    else opt data file_url);
             caption = (case opt data caption of None \<Rightarrow> []
                        | Some c \<Rightarrow> richTextToMarkdown (Some c))
         in if truthy url
            then (if caption \<noteq> []
                  then ''!['' @ caption @ '']('' @ the url @ '')\<newline>*'' @ caption @ ''*''
                  else ''![Image]('' @ the url @ '')'')
            else [])
      else if ty = ''bookmark'' \<or> ty = ''link_preview'' then
        (if truthy (opt data url)
         then ''['' @ the (opt data url) @ '']('' @ the (opt data url) @ '')'' else [])
      else if ty = ''table'' then
        (case ch of None \<Rightarrow> [] | Some cs \<Rightarrow> tableToMarkdown cs)
      else if ty = ''table_row'' then []
      else if ty = ''column_list'' then
        (case ch of None \<Rightarrow> [] | Some cs \<Rightarrow> blocksToMarkdown cs depth)
      else if ty = ''column'' then
        (case ch of None \<Rightarrow> [] | Some cs \<Rightarrow> blocksToMarkdown cs depth)
      else (case opt data rich_text of None \<Rightarrow> []
            | Some rt \<Rightarrow> richTextToMarkdown (Some rt)))"
| "blocksToMarkdown blocks depth = join ''\<newline>\<newline>'' (blockLines blocks depth)"
| "blockLines [] depth = []"
| "blockLines (block # blocks) depth =
     (let md = blockToMarkdown block depth
      in if md \<noteq> [] then md # blockLines blocks depth else blockLines blocks depth)"

section \<open>Paginated retrieval (notion.ts, fetchAllBlocks)\<close>

text \<open>
  The remote client is a parameter: \<open>client.blocks.children.list\<close> maps a request to a
  response, or fails with an error message (\<open>Inl\<close>), which the caller does not catch.
  The \<open>do \<dots> while (cursor)\<close> loop and the recursion into children end only if the
  provider lets them, so both run on fuel: \<open>None\<close> is "no result within this fuel".
\<close>

record list_request =
  req_block_id :: string
  start_cursor :: "string option"
  page_size :: nat

record list_response =
  results :: "block list"
  has_more :: bool
  next_cursor :: "string option"

type_synonym client = "list_request \<Rightarrow> string + list_response"

text \<open>One pass of the \<open>do \<dots> while\<close> body, from the current \<open>cursor\<close> and \<open>blocks\<close>.\<close>

fun fetchPages ::
  "nat \<Rightarrow> client \<Rightarrow> string \<Rightarrow> string option \<Rightarrow> block list \<Rightarrow> (string + block list) option"
where
  "fetchPages 0 client blockId cursor blocks = None"
| "fetchPages (Suc n) client blockId cursor blocks =
     (case client \<lparr>req_block_id = blockId, start_cursor = cursor, page_size = 100\<rparr> of
        Inl e \<Rightarrow> Some (Inl e)
      | Inr response \<Rightarrow>
          (let blocks' = blocks @ results response;
               cursor' = (if has_more response then next_cursor response else None)
           in if truthy cursor' then fetchPages n client blockId cursor' blocks'
              else Some (Inr blocks')))"

text \<open>
  The second loop: \<open>block.children = await fetchAllBlocks(client, block.id)\<close> for every
  block with \<open>has_children\<close>, in order; \<open>fetch\<close> is the recursive call.
\<close>

fun fetchChildren ::
  "(string \<Rightarrow> (string + block list) option) \<Rightarrow> block list \<Rightarrow> (string + block list) option"
where
  "fetchChildren fetch [] = Some (Inr [])"
| "fetchChildren fetch (block # blocks) =
     (if has_children block
      then (case fetch (block_id block) of
              None \<Rightarrow> None
            | Some (Inl e) \<Rightarrow> Some (Inl e)
            | Some (Inr cs) \<Rightarrow>
                (case fetchChildren fetch blocks of
                   None \<Rightarrow> None
                 | Some (Inl e) \<Rightarrow> Some (Inl e)
                 | Some (Inr rest) \<Rightarrow>
                     Some (Inr (Block (block_id block) (type block) (has_children block)
                                  (props block) (Some cs) # rest))))
      else (case fetchChildren fetch blocks of
              None \<Rightarrow> None
            | Some (Inl e) \<Rightarrow> Some (Inl e)
            | Some (Inr rest) \<Rightarrow> Some (Inr (block # rest))))"

fun fetchAllBlocks :: "nat \<Rightarrow> client \<Rightarrow> string \<Rightarrow> (string + block list) option" where
  "fetchAllBlocks 0 client blockId = None"
| "fetchAllBlocks (Suc n) client blockId =
     (case fetchPages (Suc n) client blockId None [] of
        None \<Rightarrow> None
      | Some (Inl e) \<Rightarrow> Some (Inl e)
      | Some (Inr blocks) \<Rightarrow> fetchChildren (\<lambda>i. fetchAllBlocks n client i) blocks)"

text \<open>The part of \<open>fetchNotionPage\<close> after the page lookup: fetch, then linearize.\<close>

definition fetchMarkdown :: "nat \<Rightarrow> client \<Rightarrow> string \<Rightarrow> (string + string) option" where
  "fetchMarkdown n client pageId =
     (case fetchAllBlocks n client pageId of
        None \<Rightarrow> None
      | Some (Inl e) \<Rightarrow> Some (Inl e)
      | Some (Inr blocks) \<Rightarrow> Some (Inr (blocksToMarkdown blocks 0)))"

text \<open>
  What a provider has to do for the loops to end. \<open>serves client blockId cursor pages\<close>:
  asked from \<open>cursor\<close> on, the provider answers with the pages \<open>pages\<close>, each but the
  last with \<open>has_more\<close> and a non-empty cursor that leads to the next one.
  \<open>expands client blocks forest\<close>: \<open>forest\<close> is \<open>blocks\<close> with the children the
  provider serves for every block that has some.
\<close>

inductive serves :: "client \<Rightarrow> string \<Rightarrow> string option \<Rightarrow> block list list \<Rightarrow> bool" where
  last_page:
    "client \<lparr>req_block_id = blockId, start_cursor = cursor, page_size = 100\<rparr> = Inr r \<Longrightarrow>
     \<not> truthy (if has_more r then next_cursor r else None) \<Longrightarrow>
     serves client blockId cursor [results r]"
| next_page:
    "client \<lparr>req_block_id = blockId, start_cursor = cursor, page_size = 100\<rparr> = Inr r \<Longrightarrow>
     has_more r \<Longrightarrow> next_cursor r = Some c \<Longrightarrow> c \<noteq> [] \<Longrightarrow>
     serves client blockId (Some c) pages \<Longrightarrow>
     serves client blockId cursor (results r # pages)"

inductive serves_forest :: "client \<Rightarrow> string \<Rightarrow> block list \<Rightarrow> bool"
  and expands :: "client \<Rightarrow> block list \<Rightarrow> block list \<Rightarrow> bool"
where
  forest:
    "serves client blockId None pages \<Longrightarrow> expands client (concat pages) forest \<Longrightarrow>
     serves_forest client blockId forest"
| expands_Nil: "expands client [] []"
| expands_leaf:
    "\<not> has_children block \<Longrightarrow> expands client blocks rest \<Longrightarrow>
     expands client (block # blocks) (block # rest)"
| expands_node:
    "has_children block \<Longrightarrow> serves_forest client (block_id block) cs \<Longrightarrow>
     expands client blocks rest \<Longrightarrow>
     expands client (block # blocks)
       (Block (block_id block) (type block) (has_children block) (props block) (Some cs) # rest)"

section \<open>Page identifiers (notion.ts, extractPageId)\<close>

text \<open>\<open>[a-f0-9]\<close> and \<open>[a-f0-9-]\<close> under the \<open>i\<close> flag.\<close>

definition isHex :: "char \<Rightarrow> bool" where
  "isHex c = (c \<in> set ''0123456789abcdefABCDEF'')"

definition isHexOrHyphen :: "char \<Rightarrow> bool" where
  "isHexOrHyphen c = (isHex c \<or> c = CHR ''-'')"

text \<open>
  \<open>s.match(/(C{n})(?:\?|$)/i)?.[1]\<close> for a character class \<open>C\<close>: the leftmost position
  where \<open>n\<close> characters of the class are followed by \<open>?\<close> or by the end of the input.
\<close>

fun matchRun :: "(char \<Rightarrow> bool) \<Rightarrow> nat \<Rightarrow> string \<Rightarrow> string option" where
  "matchRun cls n [] = (if n = 0 then Some [] else None)"
| "matchRun cls n (c # cs) =
     (if n \<le> length (c # cs) \<and> list_all cls (take n (c # cs))
         \<and> (drop n (c # cs) = [] \<or> hd (drop n (c # cs)) = CHR ''?'')
      then Some (take n (c # cs)) else matchRun cls n cs)"

definition removeHyphens :: "string \<Rightarrow> string" where
  "removeHyphens s = filter (\<lambda>c. c \<noteq> CHR ''-'') s"

definition extractPageId :: "string \<Rightarrow> string option" where
  "extractPageId urlOrId =
     (let cleanId = removeHyphens urlOrId in
      if length cleanId = 32 \<and> list_all isHex cleanId then Some cleanId
      else (case matchRun isHex 32 urlOrId of
              Some m \<Rightarrow> Some m
            | None \<Rightarrow>
                (case matchRun isHexOrHyphen 36 urlOrId of
                   Some m \<Rightarrow> Some (removeHyphens m)
                 | None \<Rightarrow> None)))"

text \<open>
  The check of \<open>fetchNotionPage\<close> and of the routes on the result (\<open>if (!pageId)\<close>): the
  page id it goes on with, or the validation error.
\<close>

definition checkedPageId :: "string \<Rightarrow> string + string" where
  "checkedPageId urlOrId =
     (if truthy (extractPageId urlOrId) then Inr (the (extractPageId urlOrId))
      else Inl ''Invalid Notion page URL or ID'')"

section \<open>Markdown (markdown.ts)\<close>

subsection \<open>String methods\<close>

text \<open>
  A \<^typ>\<open>char\<close> of this part is a code unit below 256 (ISO 8859-1); strings with
  larger code units are outside the model. There \<open>toLowerCase\<close> maps code unit to
  code unit (\<open>A\<close> to \<open>Z\<close> and the accented capitals 192 to 222, but not the
  multiplication sign 215, move up by 32), and \<open>\s\<close> and \<open>trim\<close> know the same
  white space: TAB, LF, VT, FF, CR, SP and NBSP. \<open>\w\<close> is \<open>[A-Za-z0-9_]\<close>.
\<close>

definition isWhiteSpace :: "char \<Rightarrow> bool" where
  "isWhiteSpace c = ((of_char c :: nat) \<in> set [9, 10, 11, 12, 13, 32, 160])"

definition isWordChar :: "char \<Rightarrow> bool" where
  "isWordChar c =
     (c \<in> set ''abcdefghijklmnopqrstuvwxyzABCDEFGHIJKLMNOPQRSTUVWXYZ0123456789_'')"

definition toLowerCaseUnit :: "char \<Rightarrow> char" where
  "toLowerCaseUnit c =
     (let n = (of_char c :: nat) in
      if (65 \<le> n \<and> n \<le> 90) \<or> (192 \<le> n \<and> n \<le> 222 \<and> n \<noteq> 215)
      then char_of (n + 32) else c)"

definition toLowerCase :: "string \<Rightarrow> string" where
  "toLowerCase s = map toLowerCaseUnit s"

definition trim :: "string \<Rightarrow> string" where
  "trim s = rev (dropWhile isWhiteSpace (rev (dropWhile isWhiteSpace s)))"

text \<open>\<open>.replace(/[\s]+/g, '-')\<close>: every maximal run of white space becomes one hyphen.\<close>

function replaceWhiteSpaceRuns :: "string \<Rightarrow> string" where
  "replaceWhiteSpaceRuns [] = []"
| "replaceWhiteSpaceRuns (c # cs) =
     (if isWhiteSpace c then CHR ''-'' # replaceWhiteSpaceRuns (dropWhile isWhiteSpace cs)
      else c # replaceWhiteSpaceRuns cs)"
  by pat_completeness auto
termination
  by (relation "measure length") (auto simp: length_dropWhile_le less_Suc_eq_le)

text \<open>\<open>.replace(/[^\w-]/g, '')\<close>.\<close>

definition removeNonWord :: "string \<Rightarrow> string" where
  "removeNonWord s = filter (\<lambda>c. isWordChar c \<or> c = CHR ''-'') s"

text \<open>The \<open>slugify\<close> option handed to the anchor plugin.\<close>

definition slugify :: "string \<Rightarrow> string" where
  "slugify s = removeNonWord (replaceWhiteSpaceRuns (trim (toLowerCase s)))"

text \<open>
  \<open>parseInt(s, 10)\<close>: leading white space, an optional sign, then the longest run of
  decimal digits; \<open>None\<close> is \<open>NaN\<close>.
\<close>

definition isDigit :: "char \<Rightarrow> bool" where
  "isDigit c = (c \<in> set ''0123456789'')"

definition digitValue :: "char \<Rightarrow> int" where
  "digitValue c = int (of_char c - 48)"

definition parseInt :: "string \<Rightarrow> int option" where
  "parseInt s =
     (let t = dropWhile isWhiteSpace s;
          negative = (t \<noteq> [] \<and> hd t = CHR ''-'');
          u = (if t \<noteq> [] \<and> (hd t = CHR ''-'' \<or> hd t = CHR ''+'') then tl t else t);
          ds = takeWhile isDigit u
      in if ds = [] then None
         else Some ((if negative then - 1 else 1) * foldl (\<lambda>a d. 10 * a + digitValue d) 0 ds))"

subsection \<open>Tokens, table of contents, title\<close>

text \<open>The fields of a markdown-it token that the service reads.\<close>

record token =
  token_type :: string
  tag :: string
  content :: string

record toc_entry =
  entry_id :: string
  entry_text :: string
  entry_level :: int

text \<open>\<open>tokens[i]\<close>, \<open>undefined\<close> out of range.\<close>

definition at :: "'a list \<Rightarrow> nat \<Rightarrow> 'a option" where
  "at xs i = (if i < length xs then Some (xs ! i) else None)"

text \<open>The \<open>for\<close> loop of \<open>extractToc\<close> from index \<open>i\<close>, with the entries pushed so far.\<close>

function extractTocFrom :: "token list \<Rightarrow> nat \<Rightarrow> toc_entry list \<Rightarrow> toc_entry list" where
  "extractTocFrom tokens i toc =
     (if i < length tokens then
        (let token = tokens ! i in
         if token_type token = ''heading_open'' then
           (case parseInt (drop 1 (tag token)) of
              None \<Rightarrow> extractTocFrom tokens (i + 1) toc
            | Some level \<Rightarrow>
                if level \<ge> 2 \<and> level \<le> 3 then
                  (case at tokens (i + 1) of
                     None \<Rightarrow> extractTocFrom tokens (i + 1) toc
                   | Some contentToken \<Rightarrow>
                       if token_type contentToken = ''inline'' then
                         (let text = content contentToken;
                              id = removeNonWord (replaceWhiteSpaceRuns (trim (toLowerCase text)))
                          in extractTocFrom tokens (i + 1)
                               (toc @ [\<lparr>entry_id = id, entry_text = text, entry_level = level\<rparr>]))
                       else extractTocFrom tokens (i + 1) toc)
                else extractTocFrom tokens (i + 1) toc)
         else extractTocFrom tokens (i + 1) toc)
      else toc)"
  by pat_completeness auto
termination
  by (relation "measure (\<lambda>(tokens, i, toc). length tokens - i)") auto

declare extractTocFrom.simps [simp del]

definition extractToc :: "token list \<Rightarrow> toc_entry list" where
  "extractToc tokens = extractTocFrom tokens 0 []"

function extractTitleFrom :: "token list \<Rightarrow> nat \<Rightarrow> string option" where
  "extractTitleFrom tokens i =
     (if i < length tokens then
        (let token = tokens ! i in
         if token_type token = ''heading_open'' \<and> tag token = ''h1'' then
           (case at tokens (i + 1) of
              None \<Rightarrow> extractTitleFrom tokens (i + 1)
            | Some contentToken \<Rightarrow>
                if token_type contentToken = ''inline'' then Some (content contentToken)
                else extractTitleFrom tokens (i + 1))
         else extractTitleFrom tokens (i + 1))
      else None)"
  by pat_completeness auto
termination
  by (relation "measure (\<lambda>(tokens, i). length tokens - i)") auto

declare extractTitleFrom.simps [simp del]

definition extractTitle :: "token list \<Rightarrow> string option" where
  "extractTitle tokens = extractTitleFrom tokens 0"

subsection \<open>parseMarkdown\<close>

text \<open>
  The configured markdown-it instance \<open>md\<close> is a parameter with the two methods the
  service calls, both on markdown text. Each call is logged, in order. The parameter
  \<open>content\<close> of \<open>parseMarkdown\<close> is \<open>markdown\<close> here.
\<close>

record markdown_result =
  html :: string
  toc :: "toc_entry list"
  title :: "string option"

record markdown_it =
  parse :: "string \<Rightarrow> token list"
  render :: "string \<Rightarrow> string"

datatype md_call = Parse string | Render string

definition md_parse :: "markdown_it \<Rightarrow> string \<Rightarrow> md_call list \<Rightarrow> token list \<times> md_call list" where
  "md_parse md src calls = (parse md src, calls @ [Parse src])"

definition md_render :: "markdown_it \<Rightarrow> string \<Rightarrow> md_call list \<Rightarrow> string \<times> md_call list" where
  "md_render md src calls = (render md src, calls @ [Render src])"

definition parseMarkdown ::
  "markdown_it \<Rightarrow> string \<Rightarrow> md_call list \<Rightarrow> markdown_result \<times> md_call list" where
  "parseMarkdown md markdown calls0 =
     (let (tokens, calls1) = md_parse md markdown calls0;
          toc = extractToc tokens;
          title = extractTitle tokens;
          (html, calls2) = md_render md markdown calls1
      in (\<lparr>html = html, toc = toc, title = title\<rparr>, calls2))"

section \<open>Reference definitions and example inputs\<close>

subsection \<open>Rich-text composition\<close>

definition wrap :: "bool \<Rightarrow> string \<Rightarrow> string \<Rightarrow> string" where
  "wrap on mark s = (if on then mark @ s @ mark else s)"

definition wrap_link :: "string option \<Rightarrow> string \<Rightarrow> string" where
  "wrap_link h s = (if truthy h then ''['' @ s @ '']('' @ the h @ '')'' else s)"

definition text_of :: "rich_text_item \<Rightarrow> string" where
  "text_of t = (case plain_text t of None \<Rightarrow> [] | Some s \<Rightarrow> s)"

text \<open>
  The order the specification gives: \<open>code\<close> innermost, then \<open>strikethrough\<close>, then
  \<open>italic\<close>, then \<open>bold\<close> outermost, the link around all.
\<close>

definition code_innermost :: "rich_text_item \<Rightarrow> string" where
  "code_innermost t =
     wrap_link (href t)
       (wrap (flag bold t) ''**''
         (wrap (flag italic t) ''*''
           (wrap (flag strikethrough t) ''~~''
             (wrap (flag code t) ''`'' (text_of t)))))"

text \<open>The reverse nesting: \<open>bold\<close> innermost, \<open>code\<close> outermost, the link around all.\<close>

definition bold_innermost :: "rich_text_item \<Rightarrow> string" where
  "bold_innermost t =
     wrap_link (href t)
       (wrap (flag code t) ''`''
         (wrap (flag strikethrough t) ''~~''
           (wrap (flag italic t) ''*''
             (wrap (flag bold t) ''**'' (text_of t)))))"

definition plain :: annotations where
  "plain = \<lparr>bold = False, italic = False, strikethrough = False, code = False\<rparr>"

subsection \<open>Blocks and tables\<close>

text \<open>The block types with a case of their own in \<open>blockToMarkdown\<close>.\<close>

definition known_types :: "string list" where
  "known_types =
     [''paragraph'', ''heading_1'', ''heading_2'', ''heading_3'', ''bulleted_list_item'',
      ''numbered_list_item'', ''to_do'', ''toggle'', ''code'', ''quote'', ''callout'',
      ''divider'', ''image'', ''bookmark'', ''link_preview'', ''table'', ''table_row'',
      ''column_list'', ''column'']"

definition no_payload :: payload where
  "no_payload =
     \<lparr>rich_text = None, checked = False, language = None, icon_emoji = None,
      data_type = None, external_url = None, file_url = None, caption = None, url = None,
      cells = None\<rparr>"

definition plain_text_run :: "string \<Rightarrow> rich_text_item list" where
  "plain_text_run s = [\<lparr>plain_text = Some s, annotations = None, href = None\<rparr>]"

definition paragraph_block :: "string \<Rightarrow> string \<Rightarrow> block" where
  "paragraph_block bid s =
     Block bid ''paragraph'' False
       (\<lambda>k. if k = ''paragraph'' then Some (no_payload\<lparr>rich_text := Some (plain_text_run s)\<rparr>)
            else None)
       None"

definition table_row :: "string list \<Rightarrow> block" where
  "table_row texts =
     Block ''row'' ''table_row'' False
       (\<lambda>k. if k = ''table_row'' then Some (no_payload\<lparr>cells := Some (map plain_text_run texts)\<rparr>)
            else None)
       None"

definition row_cells :: "block \<Rightarrow> rich_text_item list list" where
  "row_cells row = (case opt (props row ''table_row'') cells of None \<Rightarrow> [] | Some cs \<Rightarrow> cs)"

definition row_line :: "block \<Rightarrow> string" where
  "row_line row =
     ''| '' @ join '' | '' (map (\<lambda>cell. richTextToMarkdown (Some cell)) (row_cells row)) @ '' |''"

definition separator_line :: "block \<Rightarrow> string" where
  "separator_line row =
     ''| '' @ join '' | '' (replicate (length (row_cells row)) ''---'') @ '' |''"

subsection \<open>Headings of a token stream\<close>

text \<open>
  In a token stream of markdown-it every \<open>heading_open\<close> token has one of the tags
  \<open>h1\<close> to \<open>h6\<close> and is followed at once by the \<open>inline\<close> token of its content.
\<close>

definition heading_tags :: "string list" where
  "heading_tags = [''h1'', ''h2'', ''h3'', ''h4'', ''h5'', ''h6'']"

fun markdown_it_stream :: "token list \<Rightarrow> bool" where
  "markdown_it_stream [] = True"
| "markdown_it_stream (t # ts) =
     ((if token_type t = ''heading_open''
       then tag t \<in> set heading_tags \<and> ts \<noteq> [] \<and> token_type (hd ts) = ''inline''
       else True)
      \<and> markdown_it_stream ts)"

definition tag_level :: "string \<Rightarrow> int" where
  "tag_level t =
     (if t = ''h1'' then 1 else if t = ''h2'' then 2 else if t = ''h3'' then 3
      else if t = ''h4'' then 4 else if t = ''h5'' then 5 else if t = ''h6'' then 6 else 0)"

text \<open>The headings of a stream in document order: level and inline content.\<close>

fun headings :: "token list \<Rightarrow> (int \<times> string) list" where
  "headings (t # u # ts) =
     (if token_type t = ''heading_open''
      then (tag_level (tag t), content u) # headings (u # ts)
      else headings (u # ts))"
| "headings ts = []"

definition toc_of_headings :: "token list \<Rightarrow> toc_entry list" where
  "toc_of_headings tokens =
     map (\<lambda>(l, s). \<lparr>entry_id = slugify s, entry_text = s, entry_level = l\<rparr>)
       (filter (\<lambda>(l, s). l = 2 \<or> l = 3) (headings tokens))"

definition title_of_headings :: "token list \<Rightarrow> string option" where
  "title_of_headings tokens =
     (case filter (\<lambda>(l, s). l = 1) (headings tokens) of
        [] \<Rightarrow> None
      | (l, s) # rest \<Rightarrow> Some s)"

text \<open>The loops of \<open>extractToc\<close> and \<open>extractTitle\<close>, by recursion on the rest of the stream.\<close>

fun tocOfSuffix :: "token list \<Rightarrow> toc_entry list" where
  "tocOfSuffix [] = []"
| "tocOfSuffix (t # ts) =
     (case (if token_type t = ''heading_open'' then parseInt (drop 1 (tag t)) else None) of
        None \<Rightarrow> tocOfSuffix ts
      | Some level \<Rightarrow>
          if level \<ge> 2 \<and> level \<le> 3 \<and> ts \<noteq> [] \<and> token_type (hd ts) = ''inline''
          then \<lparr>entry_id = slugify (content (hd ts)), entry_text = content (hd ts),
                 entry_level = level\<rparr> # tocOfSuffix ts
          else tocOfSuffix ts)"

fun titleOfSuffix :: "token list \<Rightarrow> string option" where
  "titleOfSuffix [] = None"
| "titleOfSuffix (t # ts) =
     (if token_type t = ''heading_open'' \<and> tag t = ''h1'' \<and> ts \<noteq> []
         \<and> token_type (hd ts) = ''inline''
      then Some (content (hd ts)) else titleOfSuffix ts)"

definition tok :: "string \<Rightarrow> string \<Rightarrow> string \<Rightarrow> token" where
  "tok ty tg c = \<lparr>token_type = ty, tag = tg, content = c\<rparr>"

text \<open>The block tokens of \<open># Title\<close>, \<open>## One\<close>, \<open>content\<close>, \<open>### Two\<close>.\<close>

definition example_markdown :: string where
  "example_markdown =
     ''# Title\<newline>\<newline>## One\<newline>\<newline>content\<newline>\<newline>### Two\<newline>''"

definition example_tokens :: "token list" where
  "example_tokens =
     [tok ''heading_open'' ''h1'' [], tok ''inline'' [] ''Title'', tok ''heading_close'' ''h1'' [],
      tok ''heading_open'' ''h2'' [], tok ''inline'' [] ''One'', tok ''heading_close'' ''h2'' [],
      tok ''paragraph_open'' ''p'' [], tok ''inline'' [] ''content'', tok ''paragraph_close'' ''p'' [],
      tok ''heading_open'' ''h3'' [], tok ''inline'' [] ''Two'', tok ''heading_close'' ''h3'' []]"

definition example_md :: markdown_it where
  "example_md =
     \<lparr>parse = (\<lambda>s. if s = example_markdown then example_tokens else []),
      render = (\<lambda>s. [])\<rparr>"

text \<open>The block tokens of a document with the heading \<open>## One\<close> twice.\<close>

definition repeated_heading_tokens :: "token list" where
  "repeated_heading_tokens =
     [tok ''heading_open'' ''h2'' [], tok ''inline'' [] ''One'', tok ''heading_close'' ''h2'' [],
      tok ''heading_open'' ''h2'' [], tok ''inline'' [] ''One'', tok ''heading_close'' ''h2'' []]"

subsection \<open>Passes over the input\<close>

text \<open>How many calls of the log hand the markdown text \<open>s\<close> to the engine.\<close>

definition passes_over :: "string \<Rightarrow> md_call list \<Rightarrow> nat" where
  "passes_over s calls = length (filter (\<lambda>c. c = Parse s \<or> c = Render s) calls)"

subsection \<open>Two providers of the same 250 blocks\<close>

definition page :: "block list \<Rightarrow> string option \<Rightarrow> string + list_response" where
  "page bs nxt = Inr \<lparr>results = bs, has_more = (nxt \<noteq> None), next_cursor = nxt\<rparr>"

text \<open>Pages of 100, 100 and 50 blocks, with the cursors \<open>p2\<close> and \<open>p3\<close>.\<close>

definition three_pages :: client where
  "three_pages rq =
     (if start_cursor rq = None then page (replicate 100 (paragraph_block ''b'' ''x'')) (Some ''p2'')
      else if start_cursor rq = Some ''p2'' then page (replicate 100 (paragraph_block ''b'' ''x'')) (Some ''p3'')
      else page (replicate 50 (paragraph_block ''b'' ''x'')) None)"

definition one_page :: client where
  "one_page rq = page (replicate 250 (paragraph_block ''b'' ''x'')) None"

subsection \<open>Slugs\<close>

text \<open>The characters a slug is made of, unchanged by every step of \<open>slugify\<close>.\<close>

definition stable :: "char \<Rightarrow> bool" where
  "stable c = ((isWordChar c \<or> c = CHR ''-'') \<and> toLowerCaseUnit c = c)"

section \<open>Verification\<close>

subsection \<open>Rich-text composition\<close>

lemma richTextItem_bold_innermost: "richTextItem t = bold_innermost t"
  by (simp add: richTextItem_def bold_innermost_def wrap_def wrap_link_def text_of_def Let_def)

text \<open>
  Claim C1, as the specification states it: every run composes with \<open>code\<close> innermost
  and \<open>bold\<close> outermost. It fails on a span that is both bold and code: the source wraps
  bold first, so the code marks end up outside the bold marks.
\<close>

theorem richTextToMarkdown_code_innermost_counterexample:
  "\<not> (\<forall>items. richTextToMarkdown (Some items) = concat (map code_innermost items))"
proof
  assume a: "\<forall>items. richTextToMarkdown (Some items) = concat (map code_innermost items)"
  let ?x = "\<lparr>plain_text = Some ''x'',
             annotations = Some \<lparr>bold = True, italic = False, strikethrough = False, code = True\<rparr>,
             href = None\<rparr>"
  have "richTextToMarkdown (Some [?x]) = ''`**x**`''"
    by (simp add: richTextToMarkdown_def richTextItem_def flag_def truthy_def)
  moreover have "concat (map code_innermost [?x]) = ''**`x`**''"
    by (simp add: code_innermost_def wrap_def wrap_link_def text_of_def flag_def truthy_def)
  ultimately show False using a by simp
qed

text \<open>
  Claim C1, amended: every span is wrapped with \<open>bold\<close> innermost, then \<open>italic\<close>, then
  \<open>strikethrough\<close>, then \<open>code\<close> outermost, each on its own flag, and the whole in a
  link when \<open>href\<close> is a non-empty string; the spans are concatenated in order, a
  missing run gives the empty string, and the run of a bold \<open>a\<close> and an italic,
  linked \<open>b\<close> composes to \<open>**a**[*b*](http://x)\<close>.
\<close>

theorem richTextToMarkdown_bold_innermost:
  "richTextToMarkdown (Some items) = concat (map bold_innermost items)
   \<and> richTextToMarkdown None = []
   \<and> richTextToMarkdown
        (Some [\<lparr>plain_text = Some ''a'', annotations = Some (plain\<lparr>bold := True\<rparr>), href = None\<rparr>,
               \<lparr>plain_text = Some ''b'', annotations = Some (plain\<lparr>italic := True\<rparr>),
                href = Some ''http://x''\<rparr>])
      = ''**a**[*b*](http://x)''"
proof (intro conjI)
  have "richTextItem = bold_innermost"
    by (rule ext) (rule richTextItem_bold_innermost)
  then show "richTextToMarkdown (Some items) = concat (map bold_innermost items)"
    by (simp add: richTextToMarkdown_def)
  show "richTextToMarkdown None = []"
    by (simp add: richTextToMarkdown_def)
  show "richTextToMarkdown
        (Some [\<lparr>plain_text = Some ''a'', annotations = Some (plain\<lparr>bold := True\<rparr>), href = None\<rparr>,
               \<lparr>plain_text = Some ''b'', annotations = Some (plain\<lparr>italic := True\<rparr>),
                href = Some ''http://x''\<rparr>])
      = ''**a**[*b*](http://x)''"
    by (simp add: richTextToMarkdown_def richTextItem_def flag_def truthy_def plain_def)
qed

subsection \<open>Joining sibling blocks\<close>

lemma blockLines_filter:
  "blockLines blocks depth =
     filter (\<lambda>md. md \<noteq> []) (map (\<lambda>b. blockToMarkdown b depth) blocks)"
  by (induction blocks) (simp_all add: Let_def del: blockToMarkdown.simps)

lemma unknown_block_empty:
  assumes "ty \<notin> set known_types" and "opt (ps ty) rich_text = None"
  shows "blockToMarkdown (Block bid ty hc ps ch) depth = []"
  using assms by (simp add: known_types_def)

text \<open>
  Claim C6: the markdown of a list of sibling blocks is the non-empty fragments of the
  blocks, in order, joined by two newlines; a block of an unknown type with no
  \<open>rich_text\<close> gives the empty fragment, and the list linearizes as if that block were
  not there.
\<close>

theorem blocksToMarkdown_join:
  assumes "ty \<notin> set known_types" and "opt (ps ty) rich_text = None"
  shows "blocksToMarkdown blocks depth =
           join ''\<newline>\<newline>'' (filter (\<lambda>md. md \<noteq> []) (map (\<lambda>b. blockToMarkdown b depth) blocks))
         \<and> blockToMarkdown (Block bid ty hc ps ch) depth = []
         \<and> blocksToMarkdown (before @ Block bid ty hc ps ch # after) depth =
             blocksToMarkdown (before @ after) depth"
proof (intro conjI)
  show "blocksToMarkdown blocks depth =
          join ''\<newline>\<newline>'' (filter (\<lambda>md. md \<noteq> []) (map (\<lambda>b. blockToMarkdown b depth) blocks))"
    by (simp add: blockLines_filter del: blockToMarkdown.simps)
  show e: "blockToMarkdown (Block bid ty hc ps ch) depth = []"
    using assms by (rule unknown_block_empty)
  show "blocksToMarkdown (before @ Block bid ty hc ps ch # after) depth =
          blocksToMarkdown (before @ after) depth"
    using e by (simp add: blockLines_filter del: blockToMarkdown.simps)
qed

lemma paragraph_block_markdown: "blockToMarkdown (paragraph_block b s) depth = s"
  by (simp add: paragraph_block_def opt_def no_payload_def plain_text_run_def
      richTextToMarkdown_def richTextItem_def flag_def truthy_def)

theorem blocksToMarkdown_join_witness:
  "''unsupported'' \<notin> set known_types
   \<and> opt ((\<lambda>k. None) ''unsupported'') rich_text = None
   \<and> blockToMarkdown (Block ''u'' ''unsupported'' False (\<lambda>k. None) None) 0 = []
   \<and> blocksToMarkdown
        [paragraph_block ''p1'' ''one'', Block ''u'' ''unsupported'' False (\<lambda>k. None) None,
         paragraph_block ''p2'' ''two''] 0
      = ''one\<newline>\<newline>two''"
proof -
  have h1: "''unsupported'' \<notin> set known_types" by (simp add: known_types_def)
  have h2: "opt ((\<lambda>k. None) ''unsupported'') rich_text = None" by (simp add: opt_def)
  from blocksToMarkdown_join[OF h1 h2, of "[paragraph_block ''p1'' ''one'', paragraph_block ''p2'' ''two'']" 0
      "''u''" False None "[paragraph_block ''p1'' ''one'']" "[paragraph_block ''p2'' ''two'']"]
  have "blockToMarkdown (Block ''u'' ''unsupported'' False (\<lambda>k. None) None) 0 = []"
    and "blocksToMarkdown
        [paragraph_block ''p1'' ''one'', Block ''u'' ''unsupported'' False (\<lambda>k. None) None,
         paragraph_block ''p2'' ''two''] 0
      = join ''\<newline>\<newline>'' (filter (\<lambda>md. md \<noteq> [])
          (map (\<lambda>b. blockToMarkdown b 0) [paragraph_block ''p1'' ''one'', paragraph_block ''p2'' ''two'']))"
    by simp_all
  with h1 h2 show ?thesis by (simp add: paragraph_block_markdown del: blockToMarkdown.simps)
qed

subsection \<open>Tables\<close>

lemma tableLines_later:
  "0 < i \<Longrightarrow> tableLines i rows = map row_line rows"
  by (induction rows arbitrary: i) (simp_all add: Let_def row_line_def row_cells_def)

lemma tableLines_first:
  "tableLines 0 (header # rows) = row_line header # separator_line header # map row_line rows"
  by (simp add: Let_def row_line_def separator_line_def row_cells_def tableLines_later
      map_replicate_const)

text \<open>
  Claim C7: a table with no rows gives the empty string; otherwise the lines are the
  first row as a pipe-delimited header, then a separator with one \<open>---\<close> per cell of
  that row, then every further row in the same pipe-delimited form, joined by newlines.
  A table block delegates to this over its children. A header of two columns and one
  data row give exactly three lines.
\<close>

theorem tableToMarkdown_layout:
  "tableToMarkdown [] = []
   \<and> tableToMarkdown (header # rows) =
       join ''\<newline>'' (row_line header # separator_line header # map row_line rows)
   \<and> blockToMarkdown (Block bid ''table'' hc ps ch) depth =
       (case ch of None \<Rightarrow> [] | Some rs \<Rightarrow> tableToMarkdown rs)
   \<and> blockToMarkdown
        (Block ''t'' ''table'' True (\<lambda>k. None)
           (Some [table_row [''Name'', ''Age''], table_row [''Ann'', ''7'']])) 0
      = ''| Name | Age |\<newline>| --- | --- |\<newline>| Ann | 7 |''"
proof (intro conjI)
  show "tableToMarkdown [] = []" by (simp add: tableToMarkdown_def)
  show "tableToMarkdown (header # rows) =
       join ''\<newline>'' (row_line header # separator_line header # map row_line rows)"
    by (simp only: tableToMarkdown_def tableLines_first) simp
  show t: "blockToMarkdown (Block bid ''table'' hc ps ch) depth =
       (case ch of None \<Rightarrow> [] | Some rs \<Rightarrow> tableToMarkdown rs)" for bid hc ps ch depth
    by simp
  have r: "row_line (table_row ts) = ''| '' @ join '' | '' ts @ '' |''" for ts
    by (simp add: row_line_def row_cells_def table_row_def opt_def no_payload_def
        plain_text_run_def richTextToMarkdown_def richTextItem_def flag_def truthy_def comp_def)
  have s: "separator_line (table_row ts) = ''| '' @ join '' | '' (replicate (length ts) ''---'') @ '' |''" for ts
    by (simp add: separator_line_def row_cells_def table_row_def opt_def no_payload_def)
  show "blockToMarkdown
        (Block ''t'' ''table'' True (\<lambda>k. None)
           (Some [table_row [''Name'', ''Age''], table_row [''Ann'', ''7'']])) 0
      = ''| Name | Age |\<newline>| --- | --- |\<newline>| Ann | 7 |''"
    by (simp add: t tableToMarkdown_def tableLines_first r s
        del: blockToMarkdown.simps tableLines.simps)
qed


subsection \<open>Pagination\<close>

lemma fetchPages_serves:
  "serves client blockId cursor pages \<Longrightarrow> length pages \<le> m \<Longrightarrow>
   fetchPages m client blockId cursor blocks = Some (Inr (blocks @ concat pages))"
proof (induction arbitrary: m blocks rule: serves.induct)
  case (last_page client blockId cursor r)
  then obtain k where "m = Suc k" by (cases m) auto
  with last_page show ?case by simp
next
  case (next_page client blockId cursor r c pages)
  then obtain k where k: "m = Suc k" by (cases m) auto
  with next_page.prems have "length pages \<le> k" by simp
  from next_page.IH[OF this, of "blocks @ results r"] k next_page.hyps show ?case
    by (simp add: truthy_def)
qed

lemma fetch_forest:
  "(serves_forest client blockId forest \<longrightarrow>
      (\<exists>n. \<forall>m\<ge>n. fetchAllBlocks m client blockId = Some (Inr forest))) \<and>
   (expands client blocks rest \<longrightarrow>
      (\<exists>n. \<forall>m\<ge>n. fetchChildren (\<lambda>i. fetchAllBlocks m client i) blocks = Some (Inr rest)))"
proof (induction rule: serves_forest_expands.induct)
  case (forest client blockId pages forest)
  then obtain n where n: "\<forall>m\<ge>n. fetchChildren (\<lambda>i. fetchAllBlocks m client i) (concat pages) = Some (Inr forest)"
    by blast
  have "\<forall>m\<ge>Suc (max n (length pages)). fetchAllBlocks m client blockId = Some (Inr forest)"
  proof (intro allI impI)
    fix m assume m: "Suc (max n (length pages)) \<le> m"
    then obtain k where k: "m = Suc k" by (cases m) auto
    with m have "length pages \<le> Suc k" "n \<le> k" by auto
    with fetchPages_serves[OF forest.hyps(1), of "Suc k" "[]"] n k show "fetchAllBlocks m client blockId = Some (Inr forest)"
      by simp
  qed
  then show ?case by blast
next
  case (expands_Nil client)
  then show ?case by simp
next
  case (expands_leaf block client blocks rest)
  then obtain n where
    n: "\<forall>m\<ge>n. fetchChildren (\<lambda>i. fetchAllBlocks m client i) blocks = Some (Inr rest)"
    by blast
  have "\<forall>m\<ge>n. fetchChildren (\<lambda>i. fetchAllBlocks m client i) (block # blocks) =
      Some (Inr (block # rest))"
    using n expands_leaf.hyps(1) by simp
  then show ?case by blast
next
  case (expands_node block client cs blocks rest)
  then obtain n1 n2 where
    n1: "\<forall>m\<ge>n1. fetchAllBlocks m client (block_id block) = Some (Inr cs)" and
    n2: "\<forall>m\<ge>n2. fetchChildren (\<lambda>i. fetchAllBlocks m client i) blocks = Some (Inr rest)"
    by blast
  have "\<forall>m\<ge>max n1 n2. fetchChildren (\<lambda>i. fetchAllBlocks m client i) (block # blocks) =
      Some (Inr (Block (block_id block) (type block) (has_children block) (props block) (Some cs) # rest))"
    using n1 n2 expands_node.hyps(1) by simp
  then show ?case by blast
qed

lemma fetchAllBlocks_forest:
  "serves_forest client blockId forest \<Longrightarrow>
   \<exists>n. \<forall>m\<ge>n. fetchAllBlocks m client blockId = Some (Inr forest)"
  using fetch_forest by blast

text \<open>
  Claim C4: whatever pages a provider splits the children of a node into, with enough
  fuel the page loop returns the pages concatenated in the order received, and the
  fetch returns the same forest, hence the same markdown, as from a provider that
  serves the same blocks in one page. The requests thread the cursor of the previous
  response and stop at the first response without one.
\<close>

theorem fetchAllBlocks_pagination:
  assumes "serves paged blockId None pages"
    and "serves single blockId None [concat pages]"
    and "expands paged (concat pages) forest"
    and "expands single (concat pages) forest"
  shows "\<exists>n. \<forall>m\<ge>n.
           fetchPages m paged blockId None [] = Some (Inr (concat pages))
         \<and> fetchAllBlocks m paged blockId = Some (Inr forest)
         \<and> fetchAllBlocks m single blockId = Some (Inr forest)
         \<and> fetchMarkdown m paged blockId = Some (Inr (blocksToMarkdown forest 0))
         \<and> fetchMarkdown m single blockId = fetchMarkdown m paged blockId"
proof -
  have "serves_forest paged blockId forest"
    using assms(1,3) by (rule serves_forest_expands.forest)
  then obtain n1 where n1: "\<forall>m\<ge>n1. fetchAllBlocks m paged blockId = Some (Inr forest)"
    using fetchAllBlocks_forest by blast
  have "expands single (concat [concat pages]) forest" using assms(4) by simp
  with assms(2) have "serves_forest single blockId forest"
    by (rule serves_forest_expands.forest)
  then obtain n2 where n2: "\<forall>m\<ge>n2. fetchAllBlocks m single blockId = Some (Inr forest)"
    using fetchAllBlocks_forest by blast
  have "\<forall>m\<ge>max (length pages) (max n1 n2).
           fetchPages m paged blockId None [] = Some (Inr (concat pages))
         \<and> fetchAllBlocks m paged blockId = Some (Inr forest)
         \<and> fetchAllBlocks m single blockId = Some (Inr forest)
         \<and> fetchMarkdown m paged blockId = Some (Inr (blocksToMarkdown forest 0))
         \<and> fetchMarkdown m single blockId = fetchMarkdown m paged blockId"
    using n1 n2 fetchPages_serves[OF assms(1), of _ "[]"]
    by (simp add: fetchMarkdown_def del: blocksToMarkdown.simps)
  then show ?thesis by blast
qed

lemma expands_leaves:
  "\<forall>b \<in> set blocks. \<not> has_children b \<Longrightarrow> expands client blocks blocks"
  by (induction blocks) (simp_all add: expands_Nil expands_leaf)

lemma three_pages_serves:
  "serves three_pages blockId None
     [replicate 100 (paragraph_block ''b'' ''x''), replicate 100 (paragraph_block ''b'' ''x''),
      replicate 50 (paragraph_block ''b'' ''x'')]"
proof -
  let ?b = "paragraph_block ''b'' ''x''"
  have 3: "serves three_pages blockId (Some ''p3'') [replicate 50 ?b]"
    using serves.last_page[of three_pages blockId "Some ''p3''"
        "\<lparr>results = replicate 50 ?b, has_more = False, next_cursor = None\<rparr>"]
    by (simp add: three_pages_def page_def truthy_def)
  have 2: "serves three_pages blockId (Some ''p2'') [replicate 100 ?b, replicate 50 ?b]"
    using serves.next_page[of three_pages blockId "Some ''p2''"
        "\<lparr>results = replicate 100 ?b, has_more = True, next_cursor = Some ''p3''\<rparr>" "''p3''", OF _ _ _ _ 3]
    by (simp add: three_pages_def page_def)
  show ?thesis
    using serves.next_page[of three_pages blockId None
        "\<lparr>results = replicate 100 ?b, has_more = True, next_cursor = Some ''p2''\<rparr>" "''p2''", OF _ _ _ _ 2]
    by (simp add: three_pages_def page_def)
qed

lemma one_page_serves:
  "serves one_page blockId None [replicate 250 (paragraph_block ''b'' ''x'')]"
  using serves.last_page[of one_page blockId None
      "\<lparr>results = replicate 250 (paragraph_block ''b'' ''x''), has_more = False, next_cursor = None\<rparr>"]
  by (simp add: one_page_def page_def truthy_def)

theorem fetchAllBlocks_pagination_witness:
  "serves three_pages ''root'' None
     [replicate 100 (paragraph_block ''b'' ''x''), replicate 100 (paragraph_block ''b'' ''x''),
      replicate 50 (paragraph_block ''b'' ''x'')]
   \<and> serves one_page ''root'' None [replicate 250 (paragraph_block ''b'' ''x'')]
   \<and> expands three_pages (replicate 250 (paragraph_block ''b'' ''x'')) (replicate 250 (paragraph_block ''b'' ''x''))
   \<and> expands one_page (replicate 250 (paragraph_block ''b'' ''x'')) (replicate 250 (paragraph_block ''b'' ''x''))
   \<and> (\<exists>n. fetchAllBlocks n three_pages ''root'' = Some (Inr (replicate 250 (paragraph_block ''b'' ''x'')))
          \<and> fetchAllBlocks n one_page ''root'' = Some (Inr (replicate 250 (paragraph_block ''b'' ''x'')))
          \<and> fetchMarkdown n one_page ''root'' = fetchMarkdown n three_pages ''root'')"
proof -
  let ?b = "paragraph_block ''b'' ''x''"
  let ?pages = "[replicate 100 ?b, replicate 100 ?b, replicate 50 ?b]"
  have c: "concat ?pages = replicate 250 ?b"
    by (simp add: replicate_add[symmetric])
  have h1: "serves three_pages ''root'' None ?pages"
    by (rule three_pages_serves)
  have h2: "serves one_page ''root'' None [concat ?pages]"
    unfolding c by (rule one_page_serves)
  have leaf: "\<forall>x \<in> set (replicate 250 ?b). \<not> has_children x"
    by (simp add: paragraph_block_def)
  have e3: "expands three_pages (replicate 250 ?b) (replicate 250 ?b)"
    using leaf by (rule expands_leaves)
  have e4: "expands one_page (replicate 250 ?b) (replicate 250 ?b)"
    using leaf by (rule expands_leaves)
  have h3: "expands three_pages (concat ?pages) (replicate 250 ?b)"
    unfolding c by (rule e3)
  have h4: "expands one_page (concat ?pages) (replicate 250 ?b)"
    unfolding c by (rule e4)
  from fetchAllBlocks_pagination[OF h1 h2 h3 h4] obtain n where
    n: "\<forall>m\<ge>n. fetchPages m three_pages ''root'' None [] = Some (Inr (concat ?pages))
         \<and> fetchAllBlocks m three_pages ''root'' = Some (Inr (replicate 250 ?b))
         \<and> fetchAllBlocks m one_page ''root'' = Some (Inr (replicate 250 ?b))
         \<and> fetchMarkdown m three_pages ''root'' = Some (Inr (blocksToMarkdown (replicate 250 ?b) 0))
         \<and> fetchMarkdown m one_page ''root'' = fetchMarkdown m three_pages ''root''" ..
  note at_n = n[rule_format, OF le_refl]
  have r1: "fetchAllBlocks n three_pages ''root'' = Some (Inr (replicate 250 ?b))"
    by (rule at_n[THEN conjunct2, THEN conjunct1])
  have r2: "fetchAllBlocks n one_page ''root'' = Some (Inr (replicate 250 ?b))"
    by (rule at_n[THEN conjunct2, THEN conjunct2, THEN conjunct1])
  have r3: "fetchMarkdown n one_page ''root'' = fetchMarkdown n three_pages ''root''"
    by (rule at_n[THEN conjunct2, THEN conjunct2, THEN conjunct2, THEN conjunct2])
  have ex: "\<exists>n. fetchAllBlocks n three_pages ''root'' = Some (Inr (replicate 250 ?b))
          \<and> fetchAllBlocks n one_page ''root'' = Some (Inr (replicate 250 ?b))
          \<and> fetchMarkdown n one_page ''root'' = fetchMarkdown n three_pages ''root''"
    by (rule exI[of _ n]) (intro conjI r1 r2 r3)
  show ?thesis
  proof (intro conjI)
    show "serves three_pages ''root'' None ?pages" by (rule h1)
    show "serves one_page ''root'' None [replicate 250 ?b]" by (rule one_page_serves)
    show "expands three_pages (replicate 250 ?b) (replicate 250 ?b)" by (rule e3)
    show "expands one_page (replicate 250 ?b) (replicate 250 ?b)" by (rule e4)
    show "\<exists>n. fetchAllBlocks n three_pages ''root'' = Some (Inr (replicate 250 ?b))
          \<and> fetchAllBlocks n one_page ''root'' = Some (Inr (replicate 250 ?b))
          \<and> fetchMarkdown n one_page ''root'' = fetchMarkdown n three_pages ''root''"
      by (rule ex)
  qed
qed


subsection \<open>Slugify\<close>

lemma toLowerCaseUnit_idem: "toLowerCaseUnit (toLowerCaseUnit c) = toLowerCaseUnit c"
proof -
  obtain n where n: "n = (of_char c :: nat)" by simp
  have lt: "n < 256" using n by simp
  show ?thesis
  proof (cases "(65 \<le> n \<and> n \<le> 90) \<or> (192 \<le> n \<and> n \<le> 222 \<and> n \<noteq> 215)")
    case True
    then have "toLowerCaseUnit c = char_of (n + 32)"
      using n by (simp add: toLowerCaseUnit_def)
    moreover have "(of_char (char_of (n + 32) :: char) :: nat) = n + 32"
      using True by (auto simp: of_char_of)
    ultimately show ?thesis using True
      by (auto simp: toLowerCaseUnit_def Let_def)
  next
    case False
    then have "toLowerCaseUnit c = c" using n by (auto simp: toLowerCaseUnit_def Let_def)
    then show ?thesis by simp
  qed
qed

lemma set_replaceWhiteSpaceRuns:
  "set (replaceWhiteSpaceRuns s) \<subseteq> insert CHR ''-'' (set s)"
proof (induction s rule: replaceWhiteSpaceRuns.induct)
  case 1
  then show ?case by simp
next
  case (2 c cs)
  then show ?case by (auto dest: set_dropWhileD)
qed

lemma set_trim: "set (trim s) \<subseteq> set s"
proof
  fix c assume "c \<in> set (trim s)"
  then have "c \<in> set (dropWhile isWhiteSpace (rev (dropWhile isWhiteSpace s)))"
    by (simp add: trim_def)
  then have "c \<in> set (rev (dropWhile isWhiteSpace s))" by (rule set_dropWhileD)
  then have "c \<in> set (dropWhile isWhiteSpace s)" by simp
  then show "c \<in> set s" by (rule set_dropWhileD)
qed

lemma wordChar_not_whiteSpace: "isWordChar c \<or> c = CHR ''-'' \<Longrightarrow> \<not> isWhiteSpace c"
  unfolding isWordChar_def isWhiteSpace_def by (elim disjE; simp) (elim disjE; simp)

lemma hyphen_lower: "toLowerCaseUnit CHR ''-'' = CHR ''-''"
  by (simp add: toLowerCaseUnit_def)

lemma slugify_stable: "c \<in> set (slugify s) \<Longrightarrow> stable c"
proof -
  assume c: "c \<in> set (slugify s)"
  then have w: "isWordChar c \<or> c = CHR ''-''" by (auto simp: slugify_def removeNonWord_def)
  from c have "c \<in> set (replaceWhiteSpaceRuns (trim (toLowerCase s)))"
    by (auto simp: slugify_def removeNonWord_def)
  then have "c = CHR ''-'' \<or> c \<in> set (toLowerCase s)"
    using set_replaceWhiteSpaceRuns set_trim by blast
  then have "toLowerCaseUnit c = c"
    by (auto simp: toLowerCase_def hyphen_lower toLowerCaseUnit_idem)
  with w show ?thesis by (simp add: stable_def)
qed

lemma dropWhile_none: "\<forall>c \<in> set s. \<not> P c \<Longrightarrow> dropWhile P s = s"
  by (cases s) auto

lemma replaceWhiteSpaceRuns_none:
  "\<forall>c \<in> set s. \<not> isWhiteSpace c \<Longrightarrow> replaceWhiteSpaceRuns s = s"
  by (induction s) auto

lemma slugify_fixed: "\<forall>c \<in> set t. stable c \<Longrightarrow> slugify t = t"
proof -
  assume st: "\<forall>c \<in> set t. stable c"
  then have nws: "\<forall>c \<in> set t. \<not> isWhiteSpace c"
    using wordChar_not_whiteSpace by (auto simp: stable_def)
  have l: "toLowerCase t = t" using st by (auto simp: toLowerCase_def stable_def intro: map_idI)
  have tr: "trim t = t" using nws by (simp add: trim_def dropWhile_none)
  have r: "replaceWhiteSpaceRuns t = t" using nws by (rule replaceWhiteSpaceRuns_none)
  have f: "removeNonWord t = t" using st by (auto simp: removeNonWord_def stable_def)
  show ?thesis by (simp add: slugify_def l tr r f)
qed

text \<open>
  Claim C9: \<open>slugify\<close> is idempotent. Its result holds only lower-case word
  characters and hyphens, and it leaves such a string as it is.
\<close>

theorem slugify_idempotent: "slugify (slugify s) = slugify s"
  by (rule slugify_fixed) (simp add: slugify_stable)

subsection \<open>Table of contents and title\<close>

lemma at_Suc_drop:
  "at tokens (Suc i) = (case drop (Suc i) tokens of [] \<Rightarrow> None | u # _ \<Rightarrow> Some u)"
  by (auto simp: at_def hd_drop_conv_nth split: list.splits dest: arg_cong[where f=hd])

lemma extractTocFrom_suffix:
  "extractTocFrom tokens i acc = acc @ tocOfSuffix (drop i tokens)"
proof (induction tokens i acc rule: extractTocFrom.induct)
  case (1 tokens i acc)
  show ?case
  proof (cases "i < length tokens")
    case False
    then show ?thesis by (subst extractTocFrom.simps) simp
  next
    case True
    then have d: "drop i tokens = tokens ! i # drop (Suc i) tokens"
      by (simp add: Cons_nth_drop_Suc)
    show ?thesis
      using True 1
      by (subst extractTocFrom.simps)
         (auto simp: d at_Suc_drop slugify_def Let_def split: option.splits list.splits)
  qed
qed

lemma extractTitleFrom_suffix:
  "extractTitleFrom tokens i = titleOfSuffix (drop i tokens)"
proof (induction tokens i rule: extractTitleFrom.induct)
  case (1 tokens i)
  show ?case
  proof (cases "i < length tokens")
    case False
    then show ?thesis by (subst extractTitleFrom.simps) simp
  next
    case True
    then have d: "drop i tokens = tokens ! i # drop (Suc i) tokens"
      by (simp add: Cons_nth_drop_Suc)
    show ?thesis
      using True 1
      by (subst extractTitleFrom.simps)
         (auto simp: d at_Suc_drop Let_def split: option.splits list.splits)
  qed
qed

lemma parseInt_digit:
  "parseInt ''1'' = Some 1" "parseInt ''2'' = Some 2" "parseInt ''3'' = Some 3"
  "parseInt ''4'' = Some 4" "parseInt ''5'' = Some 5" "parseInt ''6'' = Some 6"
  by (simp_all add: parseInt_def isWhiteSpace_def isDigit_def digitValue_def)

lemma parseInt_heading_tag:
  "tg \<in> set heading_tags \<Longrightarrow> parseInt (drop 1 tg) = Some (tag_level tg)"
  by (auto simp: heading_tags_def tag_level_def parseInt_digit)

lemma tag_level_1: "tg \<in> set heading_tags \<Longrightarrow> (tag_level tg = 1) = (tg = ''h1'')"
  by (auto simp: heading_tags_def tag_level_def)

lemma toc_of_headings_step:
  "toc_of_headings (t # u # ts) =
     (if token_type t = ''heading_open'' \<and> (tag_level (tag t) = 2 \<or> tag_level (tag t) = 3)
      then [\<lparr>entry_id = slugify (content u), entry_text = content u,
              entry_level = tag_level (tag t)\<rparr>]
      else []) @ toc_of_headings (u # ts)"
  by (simp add: toc_of_headings_def)

lemma tocOfSuffix_step:
  "token_type t = ''heading_open'' \<Longrightarrow> tag t \<in> set heading_tags \<Longrightarrow>
   token_type u = ''inline'' \<Longrightarrow>
   tocOfSuffix (t # u # ts) =
     (if tag_level (tag t) = 2 \<or> tag_level (tag t) = 3
      then [\<lparr>entry_id = slugify (content u), entry_text = content u,
              entry_level = tag_level (tag t)\<rparr>]
      else []) @ tocOfSuffix (u # ts)"
  using parseInt_heading_tag[of "tag t"] by auto

lemma tocOfSuffix_skip:
  "token_type t \<noteq> ''heading_open'' \<Longrightarrow> tocOfSuffix (t # ts) = tocOfSuffix ts"
  by simp

lemma tocOfSuffix_headings:
  "markdown_it_stream tokens \<Longrightarrow> tocOfSuffix tokens = toc_of_headings tokens"
proof (induction tokens)
  case Nil
  show ?case by (simp add: toc_of_headings_def)
next
  case (Cons t ts)
  then have ih: "tocOfSuffix ts = toc_of_headings ts" by simp
  show ?case
  proof (cases ts)
    case Nil
    with Cons.prems show ?thesis by (auto simp: toc_of_headings_def)
  next
    case (Cons u rest)
    show ?thesis
    proof (cases "token_type t = ''heading_open''")
      case True
      with Cons.prems Cons have "tag t \<in> set heading_tags" "token_type u = ''inline''"
        by simp_all
      from tocOfSuffix_step[OF True this] ih Cons True show ?thesis
        by (simp only: toc_of_headings_step) simp
    next
      case False
      from tocOfSuffix_skip[OF False] ih Cons False show ?thesis
        by (simp only: toc_of_headings_step) simp
    qed
  qed
qed

lemma title_of_headings_step:
  "title_of_headings (t # u # ts) =
     (if token_type t = ''heading_open'' \<and> tag_level (tag t) = 1
      then Some (content u) else title_of_headings (u # ts))"
  by (simp add: title_of_headings_def)

lemma titleOfSuffix_headings:
  "markdown_it_stream tokens \<Longrightarrow> titleOfSuffix tokens = title_of_headings tokens"
proof (induction tokens)
  case Nil
  show ?case by (simp add: title_of_headings_def)
next
  case (Cons t ts)
  then have ih: "titleOfSuffix ts = title_of_headings ts" by simp
  show ?case
  proof (cases ts)
    case Nil
    with Cons.prems show ?thesis by (auto simp: title_of_headings_def)
  next
    case (Cons u rest)
    show ?thesis
    proof (cases "token_type t = ''heading_open''")
      case True
      with Cons.prems Cons have "tag t \<in> set heading_tags" "token_type u = ''inline''"
        by simp_all
      with tag_level_1[of "tag t"] ih Cons True show ?thesis
        by (simp only: title_of_headings_step) simp
    next
      case False
      with ih Cons show ?thesis
        by (simp only: title_of_headings_step) simp
    qed
  qed
qed


text \<open>
  Claim C5: for a token stream of markdown-it, the table of contents is the headings of
  level 2 and 3 in document order, each with the slug of its inline content, and the
  title is the inline content of the first heading of level 1, absent when there is
  none. For the input \<open># Title\<close>, \<open>## One\<close>, \<open>content\<close>, \<open>### Two\<close> the title is
  \<open>Title\<close> and the table of contents is \<open>one\<close> at level 2 and \<open>two\<close> at level 3.
\<close>

theorem toc_and_title_of_headings:
  assumes "markdown_it_stream (parse md markdown)"
    and "parse md example_markdown = example_tokens"
  shows "toc (fst (parseMarkdown md markdown calls)) = toc_of_headings (parse md markdown)
       \<and> title (fst (parseMarkdown md markdown calls)) = title_of_headings (parse md markdown)
       \<and> title (fst (parseMarkdown md example_markdown calls)) = Some ''Title''
       \<and> toc (fst (parseMarkdown md example_markdown calls)) =
           [\<lparr>entry_id = ''one'', entry_text = ''One'', entry_level = 2\<rparr>,
            \<lparr>entry_id = ''two'', entry_text = ''Two'', entry_level = 3\<rparr>]"
proof -
  have toc_eq: "toc (fst (parseMarkdown md s calls)) = tocOfSuffix (parse md s)" for s
    by (simp add: parseMarkdown_def md_parse_def md_render_def extractToc_def
        extractTocFrom_suffix)
  have title_eq: "title (fst (parseMarkdown md s calls)) = titleOfSuffix (parse md s)" for s
    by (simp add: parseMarkdown_def md_parse_def md_render_def extractTitle_def
        extractTitleFrom_suffix)
  have wf: "markdown_it_stream example_tokens"
    by (simp add: example_tokens_def tok_def heading_tags_def)
  have one: "slugify ''One'' = ''one''"
    by code_simp
  have two: "slugify ''Two'' = ''two''"
    by code_simp
  have ex_toc: "toc_of_headings example_tokens =
      [\<lparr>entry_id = ''one'', entry_text = ''One'', entry_level = 2\<rparr>,
       \<lparr>entry_id = ''two'', entry_text = ''Two'', entry_level = 3\<rparr>]"
    by (simp add: toc_of_headings_def example_tokens_def tok_def tag_level_def one two)
  have ex_title: "title_of_headings example_tokens = Some ''Title''"
    by (simp add: title_of_headings_def example_tokens_def tok_def tag_level_def)
  show ?thesis
    using assms(1) wf
    by (simp add: toc_eq title_eq assms(2) tocOfSuffix_headings titleOfSuffix_headings
        ex_toc ex_title del: tocOfSuffix.simps titleOfSuffix.simps markdown_it_stream.simps)
qed

theorem toc_and_title_of_headings_witness:
  "markdown_it_stream (parse example_md example_markdown)
   \<and> parse example_md example_markdown = example_tokens
   \<and> title (fst (parseMarkdown example_md example_markdown [])) = Some ''Title''
   \<and> toc (fst (parseMarkdown example_md example_markdown [])) =
       [\<lparr>entry_id = ''one'', entry_text = ''One'', entry_level = 2\<rparr>,
        \<lparr>entry_id = ''two'', entry_text = ''Two'', entry_level = 3\<rparr>]"
proof -
  have h2: "parse example_md example_markdown = example_tokens"
    by (simp add: example_md_def)
  have h1: "markdown_it_stream (parse example_md example_markdown)"
    unfolding h2 by (simp add: example_tokens_def tok_def heading_tags_def)
  note t = toc_and_title_of_headings[OF h1 h2, of "[]"]
  show ?thesis
    by (intro conjI h1 h2 t[THEN conjunct2, THEN conjunct2, THEN conjunct1]
        t[THEN conjunct2, THEN conjunct2, THEN conjunct2])
qed

text \<open>
  Claim C3, as the specification states it: the markdown text is processed exactly once.
  It fails on every input: the service hands the text to \<open>md.parse\<close> and then again to
  \<open>md.render\<close>.
\<close>

theorem parseMarkdown_single_pass_counterexample:
  "\<not> (\<forall>md markdown. passes_over markdown (snd (parseMarkdown md markdown [])) = 1)"
proof
  assume "\<forall>md markdown. passes_over markdown (snd (parseMarkdown md markdown [])) = 1"
  then have "passes_over example_markdown (snd (parseMarkdown example_md example_markdown [])) = 1"
    by blast
  moreover have "snd (parseMarkdown example_md example_markdown []) =
      [Parse example_markdown, Render example_markdown]"
    by (simp add: parseMarkdown_def md_parse_def md_render_def)
  ultimately show False by (simp add: passes_over_def)
qed

text \<open>
  Claim C3, amended: \<open>parseMarkdown\<close> calls \<open>md.parse\<close> on the input once and extracts
  both the table of contents and the title from that one token stream; the html is the
  result of a separate call of \<open>md.render\<close> on the input text, a second pass over
  the input, not a rendering of the extracted token stream.
\<close>

theorem parseMarkdown_two_passes:
  "parseMarkdown md markdown calls =
     (\<lparr>html = render md markdown, toc = extractToc (parse md markdown),
       title = extractTitle (parse md markdown)\<rparr>,
      calls @ [Parse markdown, Render markdown])
   \<and> passes_over markdown (snd (parseMarkdown md markdown [])) = 2"
  by (simp add: parseMarkdown_def md_parse_def md_render_def passes_over_def)

subsection \<open>Page identifiers\<close>

text \<open>
  Claim C8: an input with no well-formed id gives no identifier. The source misses it
  for a URL whose last 36 characters are hexadecimal digits and hyphens in any
  arrangement: the third pattern accepts them, and the caller goes on with the result.
\<close>

theorem extractPageId_slug_without_id:
  "extractPageId ''https://www.notion.so/deadbeef-cafe-babe-face-added-facade''
     = Some ''deadbeefcafebabefaceaddedfacade''
   \<and> checkedPageId ''https://www.notion.so/deadbeef-cafe-babe-face-added-facade''
     = Inr ''deadbeefcafebabefaceaddedfacade''"
  by code_simp

text \<open>
  Claim C10: a result is 32 hexadecimal characters. The source misses it through the
  same third pattern: 35 digits around one hyphen come back as a result of 35 characters.
\<close>

theorem extractPageId_not_32_hex:
  "extractPageId ''aaaaaaaaaaaaaaaaaa-aaaaaaaaaaaaaaaaa'' = Some ''aaaaaaaaaaaaaaaaaaaaaaaaaaaaaaaaaaa''
   \<and> length ''aaaaaaaaaaaaaaaaaaaaaaaaaaaaaaaaaaa'' = 35"
  by code_simp


subsection \<open>Anchors of repeated headings\<close>

text \<open>
  Claim C2: every entry of the table of contents carries the id of its own heading.
  The source gives the two entries of a heading that occurs twice the same id.
\<close>

theorem extractToc_repeated_heading:
  "map entry_id (extractToc repeated_heading_tokens) = [''one'', ''one'']"
  by code_simp

end
